theory Spec2Isabelle
  imports Main
begin

section \<open>Python values\<close>

text \<open>
  A Python \<open>str\<close> is a sequence of Unicode code points. A code point is a natural
  number here, so that the Chinese characters the program works on are single elements,
  as they are for Python's \<open>for C in chars\<close> and \<open>len\<close>.
\<close>

type_synonym uchar = nat
type_synonym ustring = "nat list"

definition ustr :: "string \<Rightarrow> ustring" where
  "ustr s = map of_char s"

datatype pyerr =
    KeyError
  | IndexError
  | ZeroDivisionError
  | TypeError
  | JSONDecodeError
  | StopIteration

text \<open>
  The conversion \<open>'%d' % n\<close> of a Python int: decimal digits, most significant
  first, with a leading minus sign for a negative number.
\<close>

fun dec_digits :: "nat \<Rightarrow> ustring" where
  "dec_digits n = (if n < 10 then [48 + n] else dec_digits (n div 10) @ [48 + n mod 10])"

declare dec_digits.simps [simp del]

definition fmt_d :: "int \<Rightarrow> ustring" where
  "fmt_d i = (if i < 0 then 45 # dec_digits (nat (- i)) else dec_digits (nat i))"

section \<open>The cell cache: \<open>get_image\<close>\<close>

text \<open>
  The chunks \<open>get_image\<close> writes to a cell file, one constructor per
  \<open>f.write\<close> call: the constants \<open>HEADER\<close>, \<open>HEADER2\<close> and \<open>FOOTER\<close>, the
  \<open>text\<close> element with its label, and \<open>PATH_TPL % (stroke, line_size)\<close>.
\<close>

datatype svg_chunk =
    HEADER
  | TextElem ustring
  | HEADER2
  | PathElem ustring int
  | FOOTER

text \<open>
  The chunks \<open>gen_svg\<close> writes to the page \<open>fi\<close>: \<open>HEADER_SINGLE\<close>, the header
  text element, \<open>IMAGE_TPL % (x, y, size, size, fname)\<close> and \<open>FOOTER_SINGLE\<close>.
\<close>

datatype page_chunk =
    HEADER_SINGLE
  | HeaderText ustring
  | Image int int int int ustring
  | FOOTER_SINGLE

text \<open>
  The mutable state of one run: the list \<open>images\<close> (the manifest), the log of the cell
  files written with \<open>open(fname, 'w')\<close> (in order, each with its content), the
  chunks written to the page \<open>fi\<close>, the number of draws made from the random
  source so far, and the number of \<open>next\<close> calls made on the curriculum generator
  (a ghost counter: the source keeps no such count). Writing a file is taken to
  succeed.
\<close>

record world =
  images :: "ustring list"
  disk :: "(ustring \<times> svg_chunk list) list"
  page :: "page_chunk list"
  rand_pos :: nat
  pulled :: nat

definition cell_fname :: "ustring \<Rightarrow> int \<Rightarrow> int \<Rightarrow> int \<Rightarrow> ustring" where
  "cell_fname C img_num skip_strokes stop_at =
     C @ (fmt_d img_num @ ustr ''-'' @ fmt_d skip_strokes @ ustr ''-'' @ fmt_d stop_at
          @ ustr ''.svg'')"

text \<open>\<open>enumerate(strokes)\<close>\<close>

definition enumerate_list :: "'a list \<Rightarrow> (int \<times> 'a) list" where
  "enumerate_list xs = zip (map int [0..<length xs]) xs"

text \<open>The body of the loop over the strokes: the paths written to the cell file.\<close>

fun cell_paths :: "(int \<times> ustring) list \<Rightarrow> int \<Rightarrow> int \<Rightarrow> int \<Rightarrow> svg_chunk list" where
  "cell_paths [] img_num skip_strokes stop_at = []"
| "cell_paths ((n, stroke) # rest) img_num skip_strokes stop_at =
     (if n < skip_strokes \<or> n \<ge> stop_at then cell_paths rest img_num skip_strokes stop_at
      else PathElem stroke (if n - 1 < img_num then 20 else 10)
             # cell_paths rest img_num skip_strokes stop_at)"

definition get_image ::
  "ustring \<Rightarrow> int \<Rightarrow> world \<Rightarrow> ustring list \<Rightarrow> int \<Rightarrow> int \<Rightarrow> ustring \<Rightarrow> ustring \<times> world" where
  "get_image C img_num w strokes skip_strokes stop_at add_text =
     (let fname = cell_fname C img_num skip_strokes stop_at in
      if fname \<in> set (images w) then (fname, w)
      else (fname,
            w\<lparr>disk := disk w @
                 [(fname, [HEADER, TextElem add_text, HEADER2]
                          @ cell_paths (enumerate_list strokes) img_num skip_strokes stop_at
                          @ [FOOTER])],
              images := images w @ [fname]\<rparr>))"

section \<open>The curriculum generator: \<open>gen_images\<close>\<close>

text \<open>\<open>d[k]\<close> on a dict: a missing key raises \<open>KeyError\<close>.\<close>

definition getitem :: "('k \<rightharpoonup> 'v) \<Rightarrow> 'k \<Rightarrow> pyerr + 'v" where
  "getitem d k = (case d k of None \<Rightarrow> Inl KeyError | Some v \<Rightarrow> Inr v)"

text \<open>
  \<open>random.choice(xs)\<close>: the random source is a function \<open>rnd\<close> from the number of
  the draw to a natural number, reduced modulo the length; an empty sequence raises
  \<open>IndexError\<close>.
\<close>

definition random_choice :: "(nat \<Rightarrow> nat) \<Rightarrow> 'a list \<Rightarrow> world \<Rightarrow> (pyerr + 'a) \<times> world" where
  "random_choice rnd xs w =
     (if xs = [] then (Inl IndexError, w)
      else (Inr (xs ! (rnd (rand_pos w) mod length xs)), w\<lparr>rand_pos := Suc (rand_pos w)\<rparr>))"

text \<open>
  The arguments of one call \<open>get_image(C, img_num, images, strokes, skip_strokes,
  stop_at, add_text)\<close> that \<open>gen_images\<close> makes, without \<open>images\<close>.
\<close>

datatype call = GetImage uchar int "ustring list" int int ustring

text \<open>
  The places where the body of \<open>gen_images\<close> can be, each at a loop header with the
  locals that are live there: the top of \<open>while True\<close>; \<open>for C in chars\<close> with
  the characters still to come; \<open>for i in range(num_strokes)\<close> about to test \<open>i\<close>;
  the two \<open>for _ in range(3)\<close> loops about to test the repetition; and
  \<open>for i in range(10)\<close> about to test \<open>i\<close>.
\<close>

datatype control =
    Pass
  | Chars "uchar list"
  | Strokes uchar "ustring list" "uchar list" nat
  | Trace uchar "ustring list" "uchar list" nat nat
  | Recall uchar "ustring list" "uchar list" nat nat
  | Review nat

text \<open>
  The state of the generator object between two \<open>next\<close> calls: it is finished by
  an exception, or it will continue from a place. A generator that was just created will
  continue at \<open>Pass\<close>; one suspended at a \<open>yield\<close> will continue at the header of
  the loop around that \<open>yield\<close>, with the loop's next item.
\<close>

datatype gen_state =
    Ready control
  | Finished

text \<open>
  \<open>run\<close> executes the body from a place up to the next \<open>yield\<close>: it returns the
  arguments of the \<open>get_image\<close> call of that \<open>yield\<close> and the place from which the
  generator will continue, or the exception raised on the way.
\<close>

fun rank :: "nat \<Rightarrow> control \<Rightarrow> nat" where
  "rank n Pass = 3 * n + 2"
| "rank n (Chars rest) = 3 * length rest + 1"
| "rank n (Strokes C strokes rest i) = 3 * length rest + 2"
| "rank n (Trace C strokes rest i r) = (if r < 3 then 0 else 1)"
| "rank n (Recall C strokes rest i r) = (if r < 3 then 0 else 3 * length rest + 3)"
| "rank n (Review i) = (if i < 10 then 0 else 3 * n + 3)"

function run ::
  "uchar list \<Rightarrow> (uchar \<rightharpoonup> ustring list) \<Rightarrow> (uchar \<rightharpoonup> ustring) \<Rightarrow> (nat \<Rightarrow> nat)
   \<Rightarrow> control \<Rightarrow> world \<Rightarrow> (pyerr + call \<times> control) \<times> world" where
  "run chars strokes_db P rnd Pass w = run chars strokes_db P rnd (Chars chars) w"
| "run chars strokes_db P rnd (Chars []) w = run chars strokes_db P rnd (Review 0) w"
| "run chars strokes_db P rnd (Chars (C # rest)) w =
     (case getitem strokes_db C of
        Inl e \<Rightarrow> (Inl e, w)
      | Inr strokes \<Rightarrow> run chars strokes_db P rnd (Strokes C strokes rest 0) w)"
| "run chars strokes_db P rnd (Strokes C strokes rest i) w =
     (if i < length strokes then run chars strokes_db P rnd (Trace C strokes rest i 0) w
      else run chars strokes_db P rnd (Chars rest) w)"
| "run chars strokes_db P rnd (Trace C strokes rest i r) w =
     (if r < 3 then
        (case getitem P C of
           Inl e \<Rightarrow> (Inl e, w)
         | Inr label \<Rightarrow>
             (Inr (GetImage C (int i) strokes 0 (int i + 1) label, Trace C strokes rest i (Suc r)), w))
      else run chars strokes_db P rnd (Recall C strokes rest i 0) w)"
| "run chars strokes_db P rnd (Recall C strokes rest i r) w =
     (if r < 3 then
        (case getitem P C of
           Inl e \<Rightarrow> (Inl e, w)
         | Inr label \<Rightarrow>
             (Inr (GetImage C 0 strokes (int i + 1) 99 label, Recall C strokes rest i (Suc r)), w))
      else run chars strokes_db P rnd (Strokes C strokes rest (Suc i)) w)"
| "run chars strokes_db P rnd (Review i) w =
     (if i < 10 then
        (case random_choice rnd chars w of
           (Inl e, w') \<Rightarrow> (Inl e, w')
         | (Inr C, w') \<Rightarrow>
             (case getitem P C of
                Inl e \<Rightarrow> (Inl e, w')
              | Inr label \<Rightarrow> (Inr (GetImage C 0 [] 99 99 label, Review (Suc i)), w')))
      else run chars strokes_db P rnd Pass w)"
  by pat_completeness auto
termination
  by (relation "measure (\<lambda>(chars, strokes_db, P, rnd, c, w). rank (length chars) c)") auto

text \<open>
  \<open>next(gen_images_iter)\<close>: the generator runs to its next \<open>yield\<close>, where it calls
  \<open>get_image\<close> and hands out the file name. The result is that call with the file
  name. An exception finishes the generator, and \<open>next\<close> on a finished generator
  raises \<open>StopIteration\<close>.
\<close>

fun gen_next ::
  "uchar list \<Rightarrow> (uchar \<rightharpoonup> ustring list) \<Rightarrow> (uchar \<rightharpoonup> ustring) \<Rightarrow> (nat \<Rightarrow> nat)
   \<Rightarrow> gen_state \<Rightarrow> world \<Rightarrow> (pyerr + call \<times> ustring) \<times> gen_state \<times> world" where
  "gen_next chars strokes_db P rnd Finished w =
     (Inl StopIteration, Finished, w\<lparr>pulled := Suc (pulled w)\<rparr>)"
| "gen_next chars strokes_db P rnd (Ready c) w =
     (case run chars strokes_db P rnd c (w\<lparr>pulled := Suc (pulled w)\<rparr>) of
        (Inl e, w') \<Rightarrow> (Inl e, Finished, w')
      | (Inr (GetImage C img_num strokes skip_strokes stop_at add_text, c'), w') \<Rightarrow>
          (case get_image [C] img_num w' strokes skip_strokes stop_at add_text of
             (fname, w'') \<Rightarrow>
               (Inr (GetImage C img_num strokes skip_strokes stop_at add_text, fname),
                Ready c', w'')))"

text \<open>
  \<open>pull n\<close>: \<open>n\<close> calls of \<open>next\<close> in a row, stopping at the first exception; the
  result lists the \<open>get_image\<close> calls made, in order.
\<close>

fun pull ::
  "uchar list \<Rightarrow> (uchar \<rightharpoonup> ustring list) \<Rightarrow> (uchar \<rightharpoonup> ustring) \<Rightarrow> (nat \<Rightarrow> nat)
   \<Rightarrow> nat \<Rightarrow> gen_state \<Rightarrow> world \<Rightarrow> (pyerr + call list) \<times> gen_state \<times> world" where
  "pull chars strokes_db P rnd 0 g w = (Inr [], g, w)"
| "pull chars strokes_db P rnd (Suc n) g w =
     (case gen_next chars strokes_db P rnd g w of
        (Inl e, g', w') \<Rightarrow> (Inl e, g', w')
      | (Inr (c, fname), g', w') \<Rightarrow>
          (case pull chars strokes_db P rnd n g' w' of
             (Inl e, g'', w'') \<Rightarrow> (Inl e, g'', w'')
           | (Inr cs, g'', w'') \<Rightarrow> (Inr (c # cs), g'', w'')))"

section \<open>The page layout: \<open>gen_svg\<close>\<close>

text \<open>\<open>sep.join(xs)\<close>\<close>

fun py_join :: "ustring \<Rightarrow> ustring list \<Rightarrow> ustring" where
  "py_join sep [] = []"
| "py_join sep [x] = x"
| "py_join sep (x # y # ys) = x @ sep @ py_join sep (y # ys)"

text \<open>
  The generator expression \<open>'%s (%s)' % (c, P[c]) for c in chars\<close>, which \<open>join\<close>
  consumes whole: the first character missing from \<open>P\<close> raises \<open>KeyError\<close>.
\<close>

fun header_items :: "(uchar \<rightharpoonup> ustring) \<Rightarrow> uchar list \<Rightarrow> pyerr + ustring list" where
  "header_items P [] = Inr []"
| "header_items P (c # cs) =
     (case getitem P c of
        Inl e \<Rightarrow> Inl e
      | Inr p \<Rightarrow>
          (case header_items P cs of
             Inl e \<Rightarrow> Inl e
           | Inr xs \<Rightarrow> Inr (([c] @ ustr '' ('' @ p @ ustr '')'') # xs)))"

definition header_text :: "(uchar \<rightharpoonup> ustring) \<Rightarrow> uchar list \<Rightarrow> pyerr + ustring" where
  "header_text P chars =
     (case header_items P chars of Inl e \<Rightarrow> Inl e | Inr xs \<Rightarrow> Inr (py_join (ustr '', '') xs))"

text \<open>\<open>range(n)\<close>, empty for \<open>n \<le> 0\<close>\<close>

definition py_range :: "int \<Rightarrow> int list" where
  "py_range n = map int [0..<nat n]"

text \<open>The loop \<open>for i in range(num_per_row * (num_rows - 1))\<close> of \<open>gen_svg\<close>.\<close>

fun gen_svg_loop ::
  "uchar list \<Rightarrow> (uchar \<rightharpoonup> ustring list) \<Rightarrow> (uchar \<rightharpoonup> ustring) \<Rightarrow> (nat \<Rightarrow> nat)
   \<Rightarrow> int \<Rightarrow> int \<Rightarrow> int list \<Rightarrow> gen_state \<Rightarrow> world \<Rightarrow> (pyerr + unit) \<times> gen_state \<times> world" where
  "gen_svg_loop chars strokes_db P rnd sz num_per_row [] g w = (Inr (), g, w)"
| "gen_svg_loop chars strokes_db P rnd sz num_per_row (i # rest) g w =
     (case gen_next chars strokes_db P rnd g w of
        (Inl e, g', w') \<Rightarrow> (Inl e, g', w')
      | (Inr (c, fname), g', w') \<Rightarrow>
          gen_svg_loop chars strokes_db P rnd sz num_per_row rest g'
            (w'\<lparr>page := page w' @
                   [Image ((i mod num_per_row) * sz) ((i div num_per_row + 1) * sz)
                      sz sz fname]\<rparr>))"

text \<open>
  \<open>gen_svg(C, strokes_db, size, fi)\<close>, with \<open>sz\<close> for \<open>size\<close>. The dictionary \<open>P\<close> that \<open>load_dictionary()\<close>
  returned and the random source are arguments; the page \<open>fi\<close> and the fresh list
  \<open>images\<close> are in the world. \<open>//\<close> and \<open>%\<close> on Python ints are \<open>div\<close> and
  \<open>mod\<close> on \<open>int\<close> (both round to minus infinity), but for the divisor zero, which
  raises.
\<close>

definition gen_svg ::
  "uchar list \<Rightarrow> (uchar \<rightharpoonup> ustring list) \<Rightarrow> (uchar \<rightharpoonup> ustring) \<Rightarrow> (nat \<Rightarrow> nat)
   \<Rightarrow> int \<Rightarrow> world \<Rightarrow> (pyerr + ustring list) \<times> world" where
  "gen_svg C strokes_db P rnd sz w =
     (if sz = 0 then (Inl ZeroDivisionError, w)
      else
        let num_per_row = 200 div sz;
            num_rows = 300 div sz;
            w1 = w\<lparr>page := page w @ [HEADER_SINGLE]\<rparr>
        in case header_text P C of
             Inl e \<Rightarrow> (Inl e, w1)
           | Inr header \<Rightarrow>
               (case gen_svg_loop C strokes_db P rnd sz num_per_row
                       (py_range (num_per_row * (num_rows - 1))) (Ready Pass)
                       (w1\<lparr>page := page w1 @ [HeaderText header], images := []\<rparr>) of
                  (Inl e, g, w3) \<Rightarrow> (Inl e, w3)
                | (Inr u, g, w3) \<Rightarrow>
                    (Inr (images w3), w3\<lparr>page := page w3 @ [FOOTER_SINGLE]\<rparr>)))"

section \<open>The stores: \<open>load_strokes_db\<close> and \<open>load_dictionary\<close>\<close>

text \<open>
  The values \<open>json.loads\<close> returns. An object holds its members under distinct names.
  Numbers are the integers; the records of \<open>graphics.txt\<close> and \<open>dictionary.txt\<close> that
  the program reads hold strings and lists.
\<close>

datatype json =
    JNull
  | JBool bool
  | JInt int
  | JStr ustring
  | JArr "json list"
  | JObj "(ustring \<times> json) list"

text \<open>
  The keys of a Python dict are the hashable values: a list or a dict as a key raises
  \<open>TypeError\<close>, and \<open>True\<close> and \<open>False\<close> are the keys \<open>1\<close> and \<open>0\<close>.
\<close>

datatype pykey = KNone | KInt int | KStr ustring

fun to_key :: "json \<Rightarrow> pyerr + pykey" where
  "to_key JNull = Inr KNone"
| "to_key (JBool b) = Inr (KInt (if b then 1 else 0))"
| "to_key (JInt n) = Inr (KInt n)"
| "to_key (JStr s) = Inr (KStr s)"
| "to_key (JArr xs) = Inl TypeError"
| "to_key (JObj kvs) = Inl TypeError"

text \<open>\<open>x[name]\<close> for a string \<open>name\<close>: only a dict can be subscripted with it.\<close>

fun json_getitem :: "json \<Rightarrow> ustring \<Rightarrow> pyerr + json" where
  "json_getitem (JObj kvs) name =
     (case map_of kvs name of None \<Rightarrow> Inl KeyError | Some v \<Rightarrow> Inr v)"
| "json_getitem x name = Inl TypeError"

text \<open>\<open>x[0]\<close>\<close>

fun json_first :: "json \<Rightarrow> pyerr + json" where
  "json_first (JArr []) = Inl IndexError"
| "json_first (JArr (x # xs)) = Inr x"
| "json_first (JStr []) = Inl IndexError"
| "json_first (JStr (c # cs)) = Inr (JStr [c])"
| "json_first (JObj kvs) = Inl KeyError"
| "json_first x = Inl TypeError"

text \<open>The truth value of \<open>x\<close> in \<open>if x:\<close>\<close>

fun truthy :: "json \<Rightarrow> bool" where
  "truthy JNull = False"
| "truthy (JBool b) = b"
| "truthy (JInt n) = (n \<noteq> 0)"
| "truthy (JStr s) = (s \<noteq> [])"
| "truthy (JArr xs) = (xs \<noteq> [])"
| "truthy (JObj kvs) = (kvs \<noteq> [])"

text \<open>\<open>t.split('\n')\<close>\<close>

fun split_lines :: "ustring \<Rightarrow> ustring list" where
  "split_lines [] = [[]]"
| "split_lines (c # cs) =
     (if c = 10 then [] # split_lines cs
      else (case split_lines cs of [] \<Rightarrow> [[c]] | l # ls \<Rightarrow> (c # l) # ls))"

text \<open>
  The dict comprehension of \<open>load_strokes_db\<close>, over the lines of the file: an empty
  line is skipped, any other is parsed, and the record's \<open>character\<close> becomes a key
  with its \<open>strokes\<close>. \<open>json_loads\<close> stands for \<open>json.loads\<close>.
\<close>

fun strokes_items ::
  "(ustring \<Rightarrow> pyerr + json) \<Rightarrow> ustring list \<Rightarrow> (pykey \<rightharpoonup> json) \<Rightarrow> pyerr + (pykey \<rightharpoonup> json)" where
  "strokes_items json_loads [] ret = Inr ret"
| "strokes_items json_loads (l # ls) ret =
     (if l = [] then strokes_items json_loads ls ret
      else
        (case json_loads l of
           Inl e \<Rightarrow> Inl e
         | Inr x \<Rightarrow>
             (case json_getitem x (ustr ''character'') of
                Inl e \<Rightarrow> Inl e
              | Inr k \<Rightarrow>
                  (case json_getitem x (ustr ''strokes'') of
                     Inl e \<Rightarrow> Inl e
                   | Inr v \<Rightarrow>
                       (case to_key k of
                          Inl e \<Rightarrow> Inl e
                        | Inr key \<Rightarrow> strokes_items json_loads ls (ret(key \<mapsto> v)))))))"

definition load_strokes_db ::
  "(ustring \<Rightarrow> pyerr + json) \<Rightarrow> ustring \<Rightarrow> pyerr + (pykey \<rightharpoonup> json)" where
  "load_strokes_db json_loads t =
     (case strokes_items json_loads (split_lines t) Map.empty of
        Inl e \<Rightarrow> Inl e
      | Inr ret \<Rightarrow> Inr (ret(KStr (ustr ''X'') \<mapsto> JArr [])))"

text \<open>
  The loop of \<open>load_dictionary\<close> over the lines of \<open>dictionary.txt\<close>: every line is
  parsed, and a record with a true \<open>pinyin\<close> maps its \<open>character\<close> to the first
  \<open>pinyin\<close>. The right-hand side of the assignment is evaluated before the key.
\<close>

fun dictionary_items ::
  "(ustring \<Rightarrow> pyerr + json) \<Rightarrow> ustring list \<Rightarrow> (pykey \<rightharpoonup> json) \<Rightarrow> pyerr + (pykey \<rightharpoonup> json)" where
  "dictionary_items json_loads [] d = Inr d"
| "dictionary_items json_loads (line # ls) d =
     (case json_loads line of
        Inl e \<Rightarrow> Inl e
      | Inr j \<Rightarrow>
          (case json_getitem j (ustr ''pinyin'') of
             Inl e \<Rightarrow> Inl e
           | Inr p \<Rightarrow>
               if truthy p then
                 (case json_first p of
                    Inl e \<Rightarrow> Inl e
                  | Inr v \<Rightarrow>
                      (case json_getitem j (ustr ''character'') of
                         Inl e \<Rightarrow> Inl e
                       | Inr k \<Rightarrow>
                           (case to_key k of
                              Inl e \<Rightarrow> Inl e
                            | Inr key \<Rightarrow> dictionary_items json_loads ls (d(key \<mapsto> v)))))
               else dictionary_items json_loads ls d))"

definition load_dictionary ::
  "(ustring \<Rightarrow> pyerr + json) \<Rightarrow> ustring list \<Rightarrow> pyerr + (pykey \<rightharpoonup> json)" where
  "load_dictionary json_loads file_lines =
     (case dictionary_items json_loads file_lines Map.empty of
        Inl e \<Rightarrow> Inl e
      | Inr d \<Rightarrow> Inr (d(KStr (ustr ''X'') \<mapsto> JStr [])))"

section \<open>The curriculum as the specification words it\<close>

text \<open>
  The drill of one character with strokes \<open>strokes\<close> and label \<open>label\<close>: for each stroke
  index \<open>i\<close> in order, three requests that show the strokes up to \<open>i\<close> with \<open>i\<close>
  emphasised, then three that skip the strokes up to \<open>i\<close> and show the rest.
\<close>

definition drill_spec :: "uchar \<Rightarrow> ustring list \<Rightarrow> ustring \<Rightarrow> call list" where
  "drill_spec C strokes label =
     concat (map (\<lambda>i. replicate 3 (GetImage C (int i) strokes 0 (int i + 1) label)
                      @ replicate 3 (GetImage C 0 strokes (int i + 1) 99 label))
                 [0..<length strokes])"






text \<open>The world at the start of a run.\<close>

definition fresh_world :: world where
  "fresh_world = \<lparr>images = [], disk = [], page = [], rand_pos = 0, pulled = 0\<rparr>"

text \<open>
  A run of the cache: the \<open>get_image\<close> calls of a list, made in order on one world.
\<close>

fun serve :: "world \<Rightarrow> call list \<Rightarrow> world" where
  "serve w [] = w"
| "serve w (GetImage C img_num strokes skip_strokes stop_at add_text # cs) =
     serve (snd (get_image [C] img_num w strokes skip_strokes stop_at add_text)) cs"

text \<open>The file name under which a call is cached.\<close>

definition call_fname :: "call \<Rightarrow> ustring" where
  "call_fname c = (case c of GetImage C img_num strokes skip_strokes stop_at add_text \<Rightarrow>
     cell_fname [C] img_num skip_strokes stop_at)"


section \<open>Reasoning about the generator\<close>

text \<open>
  Two places are the same for \<open>run\<close> when the body reaches the same \<open>yield\<close> (or
  exception) from both, as from the end of a loop and from the header of the next.
\<close>

definition same_run ::
  "uchar list \<Rightarrow> (uchar \<rightharpoonup> ustring list) \<Rightarrow> (uchar \<rightharpoonup> ustring) \<Rightarrow> (nat \<Rightarrow> nat)
   \<Rightarrow> control \<Rightarrow> control \<Rightarrow> bool" where
  "same_run chars strokes_db P rnd c c' \<longleftrightarrow>
     (\<forall>w. run chars strokes_db P rnd c w = run chars strokes_db P rnd c' w)"

text \<open>
  \<open>leads c n cs d c'\<close>: a generator that continues like \<open>c\<close> hands out \<open>n\<close> cells
  without an exception, by the calls \<open>cs pos\<close> (\<open>pos\<close> the number of random draws
  made before), makes \<open>d\<close> random draws, and then continues like \<open>c'\<close>.
\<close>

definition leads ::
  "uchar list \<Rightarrow> (uchar \<rightharpoonup> ustring list) \<Rightarrow> (uchar \<rightharpoonup> ustring) \<Rightarrow> (nat \<Rightarrow> nat)
   \<Rightarrow> control \<Rightarrow> nat \<Rightarrow> (nat \<Rightarrow> call list) \<Rightarrow> nat \<Rightarrow> control \<Rightarrow> bool" where
  "leads chars strokes_db P rnd c n cs d c' \<longleftrightarrow>
     (\<forall>c0 w. same_run chars strokes_db P rnd c0 c \<longrightarrow>
        (\<exists>c1 w'. pull chars strokes_db P rnd n (Ready c0) w = (Inr (cs (rand_pos w)), Ready c1, w')
                 \<and> same_run chars strokes_db P rnd c1 c'
                 \<and> rand_pos w' = rand_pos w + d \<and> pulled w' = pulled w + n))"

section \<open>File names\<close>

lemma dec_digits_nonempty: "dec_digits n \<noteq> []"
  by (subst dec_digits.simps) simp

lemma dec_digits_range: "d \<in> set (dec_digits n) \<Longrightarrow> 48 \<le> d \<and> d \<le> 57"
proof (induction n rule: dec_digits.induct)
  case (1 n)
  show ?case
  proof (cases "n < 10")
    case True
    with "1.prems" show ?thesis by (simp add: dec_digits.simps [of n])
  next
    case False
    from "1.prems" have "d \<in> set (dec_digits (n div 10)) \<or> d = 48 + n mod 10"
      using False by (auto simp add: dec_digits.simps [of n])
    then show ?thesis
    proof
      assume "d \<in> set (dec_digits (n div 10))"
      with "1.IH" False show ?thesis by simp
    next
      assume "d = 48 + n mod 10"
      moreover have "n mod 10 < 10" by simp
      ultimately show ?thesis by linarith
    qed
  qed
qed

lemma dec_digits_inj: "dec_digits n = dec_digits m \<Longrightarrow> n = m"
proof (induction n arbitrary: m rule: dec_digits.induct)
  case (1 n)
  show ?case
  proof (cases "n < 10")
    case n: True
    show ?thesis
    proof (cases "m < 10")
      case True
      with n "1.prems" show ?thesis
        by (simp add: dec_digits.simps [of n] dec_digits.simps [of m])
    next
      case False
      with n "1.prems" dec_digits_nonempty [of "m div 10"] show ?thesis
        by (simp add: dec_digits.simps [of n] dec_digits.simps [of m])
    qed
  next
    case n: False
    show ?thesis
    proof (cases "m < 10")
      case True
      with n "1.prems" dec_digits_nonempty [of "n div 10"] show ?thesis
        by (simp add: dec_digits.simps [of n] dec_digits.simps [of m])
    next
      case False
      with n "1.prems" have eq: "dec_digits (n div 10) = dec_digits (m div 10)"
        and md: "n mod 10 = m mod 10"
        by (simp_all add: dec_digits.simps [of n] dec_digits.simps [of m])
      from "1.IH" [OF n eq] have "n div 10 = m div 10" .
      with md show ?thesis by (metis div_mult_mod_eq)
    qed
  qed
qed

lemma fmt_d_nonneg: "0 \<le> i \<Longrightarrow> fmt_d i = dec_digits (nat i)"
  by (simp add: fmt_d_def)

lemma fmt_d_inj: "0 \<le> i \<Longrightarrow> 0 \<le> j \<Longrightarrow> fmt_d i = fmt_d j \<Longrightarrow> i = j"
  using dec_digits_inj [of "nat i" "nat j"] by (simp add: fmt_d_nonneg)

lemma fmt_d_no_dash: "0 \<le> i \<Longrightarrow> 45 \<notin> set (fmt_d i)"
  using dec_digits_range [of 45 "nat i"] by (auto simp add: fmt_d_nonneg)

lemma fmt_d_no_dot: "0 \<le> i \<Longrightarrow> 46 \<notin> set (fmt_d i)"
  using dec_digits_range [of 46 "nat i"] by (auto simp add: fmt_d_nonneg)

lemma split_at_sep:
  "s \<notin> set xs \<Longrightarrow> s \<notin> set xs' \<Longrightarrow> xs @ s # ys = xs' @ s # ys' \<Longrightarrow> xs = xs' \<and> ys = ys'"
proof (induction xs arbitrary: xs')
  case Nil
  then show ?case by (cases xs') auto
next
  case (Cons a xs)
  then show ?case by (cases xs') auto
qed

lemma ustr_dash: "ustr ''-'' = [45]"
  by (simp add: ustr_def)

lemma ustr_svg: "ustr ''.svg'' = [46, 115, 118, 103]"
  by (simp add: ustr_def)

lemma cell_fname_single:
  "cell_fname [c] a b d = c # fmt_d a @ 45 # fmt_d b @ 45 # fmt_d d @ 46 # [115, 118, 103]"
  by (simp add: cell_fname_def ustr_dash ustr_svg)

text \<open>
  C10: for a character of one code point and non-negative \<open>img_num\<close>, \<open>skip_strokes\<close>
  and \<open>stop_at\<close>, the file name \<open>C + '%d-%d-%d.svg' % (img_num, skip_strokes,
  stop_at)\<close> determines all four: two calls get the same file name if and only if the
  four fields are equal.
\<close>

theorem cell_fname_injective:
  assumes "0 \<le> a" "0 \<le> b" "0 \<le> d" "0 \<le> a'" "0 \<le> b'" "0 \<le> d'"
  shows "cell_fname [c] a b d = cell_fname [c'] a' b' d'
         \<longleftrightarrow> c = c' \<and> a = a' \<and> b = b' \<and> d = d'"
proof
  assume eq: "cell_fname [c] a b d = cell_fname [c'] a' b' d'"
  then have c: "c = c'"
    and r1: "fmt_d a @ 45 # (fmt_d b @ 45 # fmt_d d @ 46 # [115, 118, 103])
           = fmt_d a' @ 45 # (fmt_d b' @ 45 # fmt_d d' @ 46 # [115, 118, 103])"
    by (simp_all add: cell_fname_single)
  from split_at_sep [OF fmt_d_no_dash [OF assms(1)] fmt_d_no_dash [OF assms(4)] r1]
  have a: "fmt_d a = fmt_d a'"
    and r2: "fmt_d b @ 45 # (fmt_d d @ 46 # [115, 118, 103])
           = fmt_d b' @ 45 # (fmt_d d' @ 46 # [115, 118, 103])"
    by simp_all
  from split_at_sep [OF fmt_d_no_dash [OF assms(2)] fmt_d_no_dash [OF assms(5)] r2]
  have b: "fmt_d b = fmt_d b'"
    and r3: "fmt_d d @ 46 # [115, 118, 103] = fmt_d d' @ 46 # [115, 118, 103]"
    by simp_all
  from split_at_sep [OF fmt_d_no_dot [OF assms(3)] fmt_d_no_dot [OF assms(6)] r3]
  have d: "fmt_d d = fmt_d d'" by simp
  from c fmt_d_inj [OF assms(1) assms(4) a] fmt_d_inj [OF assms(2) assms(5) b]
    fmt_d_inj [OF assms(3) assms(6) d]
  show "c = c' \<and> a = a' \<and> b = b' \<and> d = d'" by simp
next
  assume "c = c' \<and> a = a' \<and> b = b' \<and> d = d'"
  then show "cell_fname [c] a b d = cell_fname [c'] a' b' d'" by simp
qed

theorem cell_fname_injective_witness:
  "(0::int) \<le> 3 \<and> (0::int) \<le> 0 \<and> (0::int) \<le> 4
   \<and> cell_fname [20320] 3 0 4 \<noteq> cell_fname [22909] 3 0 4
   \<and> cell_fname [20320] 3 0 4 \<noteq> cell_fname [20320] 0 4 99"
  using cell_fname_injective [where a = 3 and b = 0 and d = 4 and a' = 3 and b' = 0 and d' = 4
      and c = 20320 and c' = 22909]
    cell_fname_injective [where a = 3 and b = 0 and d = 4 and a' = 0 and b' = 4 and d' = 99
      and c = 20320 and c' = 20320]
  by simp

section \<open>The cell cache\<close>

lemma get_image_fst: "fst (get_image C a w s k t l) = cell_fname C a k t"
  by (simp add: get_image_def Let_def)

lemma get_image_hit:
  "cell_fname C a k t \<in> set (images w) \<Longrightarrow> get_image C a w s k t l = (cell_fname C a k t, w)"
  by (simp add: get_image_def Let_def)

lemma get_image_images:
  "images (snd (get_image C a w s k t l)) =
     (if cell_fname C a k t \<in> set (images w) then images w else images w @ [cell_fname C a k t])"
  by (simp add: get_image_def Let_def)

lemma get_image_disk_names:
  "map fst (disk (snd (get_image C a w s k t l))) =
     (if cell_fname C a k t \<in> set (images w) then map fst (disk w)
      else map fst (disk w) @ [cell_fname C a k t])"
  by (simp add: get_image_def Let_def)

lemma serve_images_mono: "f \<in> set (images w) \<Longrightarrow> f \<in> set (images (serve w cs))"
proof (induction cs arbitrary: w)
  case Nil
  then show ?case by simp
next
  case (Cons c cs)
  then show ?case by (cases c) (simp add: get_image_images)
qed

lemma serve_requested: "c \<in> set cs \<Longrightarrow> call_fname c \<in> set (images (serve w cs))"
proof (induction cs arbitrary: w)
  case Nil
  then show ?case by simp
next
  case (Cons x xs)
  show ?case
  proof (cases "c = x")
    case True
    obtain C a s k t l where x: "x = GetImage C a s k t l" by (cases x)
    have "cell_fname [C] a k t \<in> set (images (snd (get_image [C] a w s k t l)))"
      by (simp add: get_image_images)
    from serve_images_mono [OF this] show ?thesis
      using True x by (simp add: call_fname_def)
  next
    case False
    with Cons.prems have "c \<in> set xs" by simp
    from Cons.IH [OF this] show ?thesis by (cases x) simp
  qed
qed

lemma serve_distinct:
  "distinct (images w) \<Longrightarrow> map fst (disk w) = images w
   \<Longrightarrow> distinct (images (serve w cs)) \<and> map fst (disk (serve w cs)) = images (serve w cs)"
proof (induction cs arbitrary: w)
  case Nil
  then show ?case by simp
next
  case (Cons x xs)
  obtain C a s k t l where x: "x = GetImage C a s k t l" by (cases x)
  let ?w = "snd (get_image [C] a w s k t l)"
  have "distinct (images ?w)" "map fst (disk ?w) = images ?w"
    using Cons.prems by (simp_all add: get_image_images get_image_disk_names)
  from Cons.IH [OF this] show ?case using x by simp
qed

lemma count_list_distinct: "distinct xs \<Longrightarrow> x \<in> set xs \<Longrightarrow> count_list xs x = 1"
  by (induction xs) (auto simp add: count_list_0_iff)

text \<open>
  C5: in a run that starts with an empty manifest, once a key (character, \<open>img_num\<close>,
  \<open>skip_strokes\<close>, \<open>stop_at\<close>) has been requested, its cell file has been written
  exactly once and its file name stands in the manifest exactly once, however often it
  was requested; and a further request with that key (with any strokes and label)
  returns the same file name and changes nothing: it writes no file and appends nothing.
\<close>

theorem cache_renders_once:
  assumes "images w0 = []" and "disk w0 = []"
    and "GetImage C img_num strokes skip_strokes stop_at add_text \<in> set cs"
  shows "get_image [C] img_num (serve w0 cs) strokes' skip_strokes stop_at add_text'
           = (cell_fname [C] img_num skip_strokes stop_at, serve w0 cs)
         \<and> count_list (map fst (disk (serve w0 cs))) (cell_fname [C] img_num skip_strokes stop_at) = 1
         \<and> count_list (images (serve w0 cs)) (cell_fname [C] img_num skip_strokes stop_at) = 1"
proof -
  let ?f = "cell_fname [C] img_num skip_strokes stop_at"
  have mem: "?f \<in> set (images (serve w0 cs))"
    using serve_requested [OF assms(3), of w0] by (simp add: call_fname_def)
  have inv: "distinct (images (serve w0 cs))" "map fst (disk (serve w0 cs)) = images (serve w0 cs)"
    using serve_distinct [of w0 cs] assms(1,2) by simp_all
  show ?thesis
    using mem inv by (simp add: get_image_hit count_list_distinct)
qed

theorem cache_renders_once_witness:
  "get_image [20320] 0
      (serve fresh_world [GetImage 20320 0 [[77]] 0 1 [110], GetImage 20320 0 [[77]] 0 1 [110]])
      [] 0 1 []
     = (cell_fname [20320] 0 0 1,
        serve fresh_world [GetImage 20320 0 [[77]] 0 1 [110], GetImage 20320 0 [[77]] 0 1 [110]])
   \<and> count_list
        (map fst (disk (serve fresh_world
           [GetImage 20320 0 [[77]] 0 1 [110], GetImage 20320 0 [[77]] 0 1 [110]])))
        (cell_fname [20320] 0 0 1) = 1
   \<and> count_list
        (images (serve fresh_world
           [GetImage 20320 0 [[77]] 0 1 [110], GetImage 20320 0 [[77]] 0 1 [110]]))
        (cell_fname [20320] 0 0 1) = 1"
  using cache_renders_once [where ?w0.0 = fresh_world and C = 20320 and img_num = 0
      and strokes = "[[77]]" and skip_strokes = 0 and stop_at = 1 and add_text = "[110]"
      and cs = "[GetImage 20320 0 [[77]] 0 1 [110], GetImage 20320 0 [[77]] 0 1 [110]]"
      and strokes' = "[]" and add_text' = "[]"]
  by (simp add: fresh_world_def)

section \<open>The curriculum\<close>



lemma same_run_sym: "same_run chars db P rnd a b \<Longrightarrow> same_run chars db P rnd b a"
  by (simp add: same_run_def)




lemma leads_cong:
  "leads chars db P rnd c n cs d c' \<Longrightarrow> n = n' \<Longrightarrow> cs = cs' \<Longrightarrow> d = d'
   \<Longrightarrow> leads chars db P rnd c n' cs' d' c'"
  by simp


























section \<open>What a pull changes\<close>

lemma run_world:
  "snd (run chars db P rnd c w) = w\<lparr>rand_pos := rand_pos (snd (run chars db P rnd c w))\<rparr>"
  by (induction chars db P rnd c w rule: run.induct)
     (simp_all add: random_choice_def split: sum.splits prod.splits)


lemma run_page: "page (snd (run chars db P rnd c w)) = page w"
  by (subst run_world) simp


lemma run_disk: "disk (snd (run chars db P rnd c w)) = disk w"
  by (subst run_world) simp



section \<open>Characters without strokes\<close>

text \<open>
  C7: at a character whose stroke sequence is empty, the loop over the characters goes
  on exactly as from the characters after it: it yields no drill request and raises
  nothing on the way (the label of the character is not even looked up); from the last
  character it goes on as the review loop does. The drill of such a character is the
  empty list of requests.
\<close>

theorem zero_stroke_character_skipped:
  assumes "strokes_db C = Some []"
  shows "run chars strokes_db P rnd (Chars (C # rest)) w = run chars strokes_db P rnd (Chars rest) w
         \<and> run chars strokes_db P rnd (Chars [C]) w = run chars strokes_db P rnd (Review 0) w
         \<and> drill_spec C [] label = []"
  using assms by (simp add: getitem_def drill_spec_def)

theorem zero_stroke_character_skipped_witness:
  "run [88, 65] [88 \<mapsto> [], 65 \<mapsto> [[77]]] [65 \<mapsto> [97]] (\<lambda>k. 0) (Chars [88, 65]) fresh_world
     = (Inr (GetImage 65 0 [[77]] 0 1 [97], Trace 65 [[77]] [] 0 1), fresh_world)
   \<and> run [88] [88 \<mapsto> []] [88 \<mapsto> []] (\<lambda>k. 0) (Chars [88]) fresh_world
     = (Inr (GetImage 88 0 [] 99 99 [], Review 1), fresh_world\<lparr>rand_pos := 1\<rparr>)"
  using zero_stroke_character_skipped [where strokes_db = "[88 \<mapsto> [], 65 \<mapsto> [[77]]]"
      and C = 88 and chars = "[88, 65]" and P = "[65 \<mapsto> [97]]" and rnd = "\<lambda>k. 0"
      and rest = "[65]" and w = fresh_world]
    zero_stroke_character_skipped [where strokes_db = "[88 \<mapsto> []]" and C = 88
      and chars = "[88]" and P = "[88 \<mapsto> []]" and rnd = "\<lambda>k. 0" and rest = "[]"
      and w = fresh_world]
  by (simp add: getitem_def random_choice_def fresh_world_def)


section \<open>A character without an entry in the stroke store\<close>






section \<open>The page header\<close>

lemma get_image_page: "page (snd (get_image C a w s k t l)) = page w"
  by (simp add: get_image_def Let_def)

lemma gen_next_page: "page (snd (snd (gen_next chars db P rnd g w))) = page w"
proof (cases g)
  case Finished
  then show ?thesis by simp
next
  case (Ready c0)
  let ?w = "w\<lparr>pulled := Suc (pulled w)\<rparr>"
  obtain r w1 where r: "run chars db P rnd c0 ?w = (r, w1)"
    by (cases "run chars db P rnd c0 ?w")
  have w1: "page w1 = page w"
    using run_page [of chars db P rnd c0 ?w] r by simp
  show ?thesis
  proof (cases r)
    case (Inl e)
    with Ready r w1 show ?thesis by simp
  next
    case (Inr p)
    obtain c1 c' where p: "p = (c1, c')" by (cases p)
    obtain C a st k t l where c1: "c1 = GetImage C a st k t l" by (cases c1)
    from Ready r Inr p c1 w1 get_image_page [of "[C]" a w1 st k t l]
    show ?thesis by (auto split: prod.splits)
  qed
qed

lemma gen_svg_loop_page:
  "\<exists>ps. page (snd (snd (gen_svg_loop chars db P rnd sz npr idx g w))) = page w @ ps"
proof (induction idx arbitrary: g w)
  case Nil
  show ?case by simp
next
  case (Cons i rest)
  obtain r g1 w1 where n: "gen_next chars db P rnd g w = (r, g1, w1)"
    by (cases "gen_next chars db P rnd g w")
  have w1: "page w1 = page w"
    using gen_next_page [of chars db P rnd g w] n by simp
  show ?case
  proof (cases r)
    case (Inl e)
    with n w1 show ?thesis by simp
  next
    case (Inr p)
    obtain c fname where p: "p = (c, fname)" by (cases p)
    let ?w = "w1\<lparr>page := page w1 @
                [Image ((i mod npr) * sz) ((i div npr + 1) * sz) sz sz fname]\<rparr>"
    from Cons.IH [of g1 ?w] obtain ps where
      "page (snd (snd (gen_svg_loop chars db P rnd sz npr rest g1 ?w))) = page ?w @ ps"
      by blast
    with n Inr p w1 show ?thesis by simp
  qed
qed

lemma header_items_covered:
  "list_all (\<lambda>c. P c \<noteq> None) cs \<Longrightarrow>
   header_items P cs = Inr (map (\<lambda>c. c # ustr '' ('' @ the (P c) @ ustr '')'') cs)"
  by (induction cs) (auto simp add: getitem_def)

lemma header_items_missing:
  "\<not> list_all (\<lambda>c. P c \<noteq> None) cs \<Longrightarrow> header_items P cs = Inl KeyError"
  by (induction cs) (auto simp add: getitem_def split: sum.splits option.splits)

text \<open>
  C9: for a non-zero cell size and target characters that all have a label, the header
  that \<open>gen_svg\<close> writes to the page, right after the preamble, is the join with
  \<open>', '\<close>, in input order, of \<open>'C (pinyin)'\<close> for each target character \<open>C\<close>; for
  the targets U+4F60 and U+597D with the labels \<open>n\<close> U+01D0 and \<open>h\<close> U+01CE \<open>o\<close> it is
  the string of the witness.
\<close>

theorem page_header:
  assumes "sz \<noteq> 0" and "list_all (\<lambda>c. P c \<noteq> None) C"
  shows "\<exists>rest. page (snd (gen_svg C strokes_db P rnd sz w))
           = page w @ HEADER_SINGLE
               # HeaderText (py_join (ustr '', '')
                               (map (\<lambda>c. c # ustr '' ('' @ the (P c) @ ustr '')'') C))
               # rest"
proof -
  let ?h = "py_join (ustr '', '') (map (\<lambda>c. c # ustr '' ('' @ the (P c) @ ustr '')'') C)"
  let ?w = "w\<lparr>page := page w @ [HEADER_SINGLE, HeaderText ?h], images := []\<rparr>"
  let ?n = "py_range (200 div sz * (300 div sz - 1))"
  have h: "header_text P C = Inr ?h"
    using header_items_covered [OF assms(2)] by (simp add: header_text_def)
  obtain r g w3 where l: "gen_svg_loop C strokes_db P rnd sz (200 div sz) ?n (Ready Pass) ?w = (r, g, w3)"
    by (cases "gen_svg_loop C strokes_db P rnd sz (200 div sz) ?n (Ready Pass) ?w")
  from gen_svg_loop_page [of C strokes_db P rnd sz "200 div sz" ?n "Ready Pass" ?w] l
  obtain ps where ps: "page w3 = page w @ [HEADER_SINGLE, HeaderText ?h] @ ps"
    by auto
  show ?thesis
    using assms(1) h l ps by (cases r) (simp_all add: gen_svg_def Let_def)
qed

theorem page_header_witness:
  "(10::int) \<noteq> 0
   \<and> list_all (\<lambda>c. [20320 \<mapsto> [110, 464], 22909 \<mapsto> [104, 462, 111]] c \<noteq> None)
        [20320 :: uchar, 22909]
   \<and> (\<exists>rest. page (snd (gen_svg [20320, 22909] [20320 \<mapsto> [[77]], 22909 \<mapsto> [[77]]]
                    [20320 \<mapsto> [110, 464], 22909 \<mapsto> [104, 462, 111]] (\<lambda>k. k) 10 fresh_world))
        = HEADER_SINGLE
          # HeaderText [20320, 32, 40, 110, 464, 41, 44, 32, 22909, 32, 40, 104, 462, 111, 41]
          # rest)"
  using page_header [where sz = 10 and C = "[20320, 22909]"
      and P = "[20320 \<mapsto> [110, 464], 22909 \<mapsto> [104, 462, 111]]"
      and strokes_db = "[20320 \<mapsto> [[77]], 22909 \<mapsto> [[77]]]" and rnd = "\<lambda>k. k"
      and w = fresh_world]
  by (simp add: ustr_def fresh_world_def)

section \<open>A character without a label\<close>

text \<open>
  The claim C6 as stated fails: for a target character without an entry in the
  pronunciation store, \<open>gen_svg\<close> raises \<open>KeyError\<close> while it builds the header, and
  the generator raises \<open>KeyError\<close> at its first \<open>yield\<close>; neither puts the empty
  string in the place of the label.
\<close>

theorem missing_label_counterexample:
  "gen_svg [65] [65 \<mapsto> [[77]]] Map.empty (\<lambda>k. 0) 10 fresh_world
     = (Inl KeyError, fresh_world\<lparr>page := [HEADER_SINGLE]\<rparr>)
   \<and> gen_next [65] [65 \<mapsto> [[77]]] Map.empty (\<lambda>k. 0) (Ready Pass) fresh_world
     = (Inl KeyError, Finished, fresh_world\<lparr>pulled := 1\<rparr>)"
  by code_simp

text \<open>
  C6, amended: looking up the label of a character that is absent from the
  pronunciation store raises \<open>KeyError\<close> in both callers. The header builder returns
  a header when every target character has a label and raises \<open>KeyError\<close> otherwise;
  the generator raises \<open>KeyError\<close> at a trace, recall or review \<open>yield\<close> whose
  character has no label.
\<close>

theorem missing_label_raises:
  "(list_all (\<lambda>c. P c \<noteq> None) chars \<longrightarrow> (\<exists>h. header_text P chars = Inr h))
   \<and> (\<not> list_all (\<lambda>c. P c \<noteq> None) chars \<longrightarrow> header_text P chars = Inl KeyError)
   \<and> (P C = None \<longrightarrow> r < 3 \<longrightarrow>
        run chars strokes_db P rnd (Trace C strokes rest i r) w = (Inl KeyError, w)
        \<and> run chars strokes_db P rnd (Recall C strokes rest i r) w = (Inl KeyError, w))
   \<and> (chars \<noteq> [] \<longrightarrow> P (chars ! (rnd (rand_pos w) mod length chars)) = None \<longrightarrow> q < 10 \<longrightarrow>
        run chars strokes_db P rnd (Review q) w
          = (Inl KeyError, w\<lparr>rand_pos := Suc (rand_pos w)\<rparr>))"
  using header_items_covered [of P chars] header_items_missing [of P chars]
  by (simp add: header_text_def getitem_def random_choice_def)

theorem missing_label_raises_witness:
  "header_text [65 \<mapsto> [97]] [65] = Inr [65, 32, 40, 97, 41]
   \<and> header_text [65 \<mapsto> [97]] [65, 90] = Inl KeyError
   \<and> run [90] [90 \<mapsto> [[77]]] [65 \<mapsto> [97]] (\<lambda>k. 0) (Trace 90 [[77]] [] 0 0) fresh_world
       = (Inl KeyError, fresh_world)
   \<and> run [90] [90 \<mapsto> [[77]]] [65 \<mapsto> [97]] (\<lambda>k. 0) (Review 0) fresh_world
       = (Inl KeyError, fresh_world\<lparr>rand_pos := 1\<rparr>)"
  using missing_label_raises [where P = "[65 \<mapsto> [97]]" and chars = "[65]"]
    missing_label_raises [where P = "[65 \<mapsto> [97]]" and chars = "[65, 90]"]
    missing_label_raises [where P = "[65 \<mapsto> [97]]" and chars = "[90]" and C = 90 and r = 0
      and strokes_db = "[90 \<mapsto> [[77]]]" and rnd = "\<lambda>k. 0" and strokes = "[[77]]"
      and rest = "[]" and i = 0 and w = fresh_world and q = 0]
  by (simp add: header_text_def getitem_def ustr_def fresh_world_def)

section \<open>The cell size\<close>





section \<open>The placeholder\<close>

text \<open>
  C8: whatever the source holds, a stroke store that \<open>load_strokes_db\<close> returns maps
  the placeholder \<open>'X'\<close> to the empty list of strokes, and a pronunciation store that
  \<open>load_dictionary\<close> returns maps \<open>'X'\<close> to the empty label, also when the source has
  an entry for \<open>'X'\<close> of its own.
\<close>

theorem placeholder_always_defined:
  "(load_strokes_db json_loads t = Inr db \<longrightarrow> db (KStr (ustr ''X'')) = Some (JArr []))
   \<and> (load_dictionary json_loads file_lines = Inr d \<longrightarrow> d (KStr (ustr ''X'')) = Some (JStr []))"
  by (auto simp add: load_strokes_db_def load_dictionary_def split: sum.splits)

theorem placeholder_always_defined_witness:
  "\<exists>db d.
     load_strokes_db
       (\<lambda>l. Inr (JObj [(ustr ''character'', JStr [88]), (ustr ''strokes'', JArr [JStr [77]]),
                        (ustr ''pinyin'', JArr [JStr [120]])])) [123, 10, 125] = Inr db
     \<and> db (KStr (ustr ''X'')) = Some (JArr [])
     \<and> load_dictionary
       (\<lambda>l. Inr (JObj [(ustr ''character'', JStr [88]), (ustr ''strokes'', JArr [JStr [77]]),
                        (ustr ''pinyin'', JArr [JStr [120]])])) [[123, 10], [125]] = Inr d
     \<and> d (KStr (ustr ''X'')) = Some (JStr [])"
proof -
  let ?jl = "\<lambda>l :: ustring. (Inr (JObj [(ustr ''character'', JStr [88]),
                 (ustr ''strokes'', JArr [JStr [77]]), (ustr ''pinyin'', JArr [JStr [120]])])
               :: pyerr + json)"
  have a: "load_strokes_db ?jl [123, 10, 125]
             = Inr ((Map.empty(KStr [88] \<mapsto> JArr [JStr [77]]))(KStr [88] \<mapsto> JArr []))"
    by (simp add: load_strokes_db_def ustr_def)
  have b: "load_dictionary ?jl [[123, 10], [125]]
             = Inr ((Map.empty(KStr [88] \<mapsto> JStr [120]))(KStr [88] \<mapsto> JStr []))"
    by (simp add: load_dictionary_def ustr_def)
  from placeholder_always_defined [where json_loads = ?jl and t = "[123, 10, 125]"
      and file_lines = "[[123, 10], [125]]"
      and db = "(Map.empty(KStr [88] \<mapsto> JArr [JStr [77]]))(KStr [88] \<mapsto> JArr [])"
      and d = "(Map.empty(KStr [88] \<mapsto> JStr [120]))(KStr [88] \<mapsto> JStr [])"] a b
  show ?thesis by blast
qed


end
